theory Spec2Isabelle
  imports Main "HOL-Library.Word" "HOL-Library.Signed_Division"
begin

section \<open>Go strings\<close>

text \<open>
  A Go string is a sequence of bytes, modelled as \<^typ>\<open>string\<close> (a list of 8-bit
  characters). The functions of the standard library that the package calls are modelled
  on bytes.
\<close>

subsection \<open>strings.TrimSpace\<close>

text \<open>
  \<^verbatim>\<open>strings.TrimSpace\<close> removes every leading and trailing code point for which
  \<^verbatim>\<open>unicode.IsSpace\<close> holds: U+0009..U+000D, U+0020, U+0085, U+00A0, U+1680,
  U+2000..U+200A, U+2028, U+2029, U+202F, U+205F and U+3000. \<open>unicode_spaces\<close> lists
  their UTF-8 encodings. UTF-8 is prefix-free and self-synchronising, so a string starts
  (ends) with a white-space code point exactly when it starts (ends) with one of these
  byte sequences.
\<close>

definition unicode_spaces :: "string list" where
  "unicode_spaces =
    [[CHR 0x09], [CHR 0x0A], [CHR 0x0B], [CHR 0x0C], [CHR 0x0D], [CHR 0x20],
     [CHR 0xC2, CHR 0x85], [CHR 0xC2, CHR 0xA0],
     [CHR 0xE1, CHR 0x9A, CHR 0x80],
     [CHR 0xE2, CHR 0x80, CHR 0x80], [CHR 0xE2, CHR 0x80, CHR 0x81],
     [CHR 0xE2, CHR 0x80, CHR 0x82], [CHR 0xE2, CHR 0x80, CHR 0x83],
     [CHR 0xE2, CHR 0x80, CHR 0x84], [CHR 0xE2, CHR 0x80, CHR 0x85],
     [CHR 0xE2, CHR 0x80, CHR 0x86], [CHR 0xE2, CHR 0x80, CHR 0x87],
     [CHR 0xE2, CHR 0x80, CHR 0x88], [CHR 0xE2, CHR 0x80, CHR 0x89],
     [CHR 0xE2, CHR 0x80, CHR 0x8A],
     [CHR 0xE2, CHR 0x80, CHR 0xA8], [CHR 0xE2, CHR 0x80, CHR 0xA9],
     [CHR 0xE2, CHR 0x80, CHR 0xAF],
     [CHR 0xE2, CHR 0x81, CHR 0x9F],
     [CHR 0xE3, CHR 0x80, CHR 0x80]]"

text \<open>The number of bytes of the first sequence of \<open>es\<close> that \<open>s\<close> starts with, 0 if none.\<close>

fun prefix_len :: "string list \<Rightarrow> string \<Rightarrow> nat" where
  "prefix_len [] s = 0"
| "prefix_len (e # es) s =
     (if e \<noteq> [] \<and> take (length e) s = e then length e else prefix_len es s)"

text \<open>The loop of \<^verbatim>\<open>strings.TrimLeftFunc\<close>: drop leading sequences while there is one.\<close>

function strip :: "string list \<Rightarrow> string \<Rightarrow> string" where
  "strip es s = (if prefix_len es s = 0 then s else strip es (drop (prefix_len es s) s))"
  by pat_completeness auto
termination
proof (relation "measure (\<lambda>(es, s). length s)")
  show "wf (measure (\<lambda>(es, s). length s))" by simp
next
  fix es :: "string list" and s :: string
  assume nz: "prefix_len es s \<noteq> 0"
  have "prefix_len es s \<le> length s"
  proof (induction es)
    case Nil
    show ?case by simp
  next
    case (Cons e es)
    have "take (length e) s = e \<Longrightarrow> length e \<le> length s"
      by (metis length_take min.cobounded1)
    with Cons show ?case by simp
  qed
  with nz show "((es, drop (prefix_len es s) s), (es, s)) \<in> measure (\<lambda>(es, s). length s)"
    by simp
qed

declare strip.simps [simp del]

definition TrimLeft :: "string \<Rightarrow> string" where
  "TrimLeft s = strip unicode_spaces s"

text \<open>\<^verbatim>\<open>strings.TrimRightFunc\<close>: the same loop from the end of the string.\<close>

definition TrimRight :: "string \<Rightarrow> string" where
  "TrimRight s = rev (strip (map rev unicode_spaces) (rev s))"

definition TrimSpace :: "string \<Rightarrow> string" where
  "TrimSpace s = TrimRight (TrimLeft s)"

subsection \<open>strings.ToLower\<close>

text \<open>
  \<^verbatim>\<open>strings.ToLower\<close> has a fast path for strings of ASCII bytes only (every byte below
  \<^verbatim>\<open>utf8.RuneSelf\<close> = 0x80): the string itself when it has no byte in \<open>'A'..'Z'\<close>, else
  a copy with \<open>'a' - 'A'\<close> added to each such byte. Any other string is mapped code point
  by code point through the Unicode case tables, \<^verbatim>\<open>strings.Map(unicode.ToLower, s)\<close>.
  Those tables belong to Go's standard library, not to this package; the function is the
  parameter \<open>unicode_lower\<close>.
\<close>

definition isASCII :: "string \<Rightarrow> bool" where
  "isASCII s = list_all (\<lambda>c. (of_char c :: nat) < 0x80) s"

definition isUpper :: "char \<Rightarrow> bool" where
  "isUpper c = ((of_char (CHR ''A'') :: nat) \<le> of_char c \<and> (of_char c :: nat) \<le> of_char (CHR ''Z''))"

definition hasUpper :: "string \<Rightarrow> bool" where
  "hasUpper s = list_ex isUpper s"

definition ascii_lower :: "char \<Rightarrow> char" where
  "ascii_lower c =
     (if isUpper c
      then char_of ((of_char c :: nat) + (of_char (CHR ''a'') - of_char (CHR ''A'')))
      else c)"

definition ToLower :: "(string \<Rightarrow> string) \<Rightarrow> string \<Rightarrow> string" where
  "ToLower unicode_lower s =
     (if isASCII s then (if \<not> hasUpper s then s else map ascii_lower s)
      else unicode_lower s)"

section \<open>AuthMode\<close>

text \<open>\<^verbatim>\<open>type AuthMode string\<close>: a mode is a string, and any string is a value of the type.\<close>

type_synonym AuthMode = string

definition AuthModeOff :: AuthMode where
  "AuthModeOff = ''off''"

definition AuthModePermissive :: AuthMode where
  "AuthModePermissive = ''permissive''"

definition AuthModeStrict :: AuthMode where
  "AuthModeStrict = ''strict''"

definition ParseAuthMode :: "(string \<Rightarrow> string) \<Rightarrow> string \<Rightarrow> AuthMode" where
  "ParseAuthMode unicode_lower s =
     (let n = ToLower unicode_lower (TrimSpace s)
      in if n = ''permissive'' then AuthModePermissive
         else if n = ''strict'' then AuthModeStrict
         else AuthModeOff)"

definition AuthMode_String :: "AuthMode \<Rightarrow> string" where
  "AuthMode_String m = m"

definition IsEnabled :: "AuthMode \<Rightarrow> bool" where
  "IsEnabled m = (m \<noteq> AuthModeOff)"

section \<open>Errors\<close>

text \<open>
  \<^verbatim>\<open>codes.Code\<close> of gRPC is a \<^verbatim>\<open>uint32\<close>; the named codes are the constants of the
  package \<^verbatim>\<open>google.golang.org/grpc/codes\<close>.
\<close>

type_synonym Code = "32 word"

definition OK :: Code where "OK = 0"
definition Canceled :: Code where "Canceled = 1"
definition Unknown :: Code where "Unknown = 2"
definition InvalidArgument :: Code where "InvalidArgument = 3"
definition DeadlineExceeded :: Code where "DeadlineExceeded = 4"
definition NotFound :: Code where "NotFound = 5"
definition AlreadyExists :: Code where "AlreadyExists = 6"
definition PermissionDenied :: Code where "PermissionDenied = 7"
definition ResourceExhausted :: Code where "ResourceExhausted = 8"
definition FailedPrecondition :: Code where "FailedPrecondition = 9"
definition Aborted :: Code where "Aborted = 10"
definition OutOfRange :: Code where "OutOfRange = 11"
definition Unimplemented :: Code where "Unimplemented = 12"
definition Internal :: Code where "Internal = 13"
definition Unavailable :: Code where "Unavailable = 14"
definition DataLoss :: Code where "DataLoss = 15"
definition Unauthenticated :: Code where "Unauthenticated = 16"

text \<open>
  The values of Go's \<^verbatim>\<open>error\<close> interface that occur: a gRPC status error (code and
  description), an error with a message only (\<^verbatim>\<open>errors.New\<close>, \<^verbatim>\<open>fmt.Errorf\<close> without
  \<^verbatim>\<open>%w\<close>), the \<^verbatim>\<open>ValidationError\<close> of the trace package, and an error wrapping another
  one behind a prefix (\<^verbatim>\<open>fmt.Errorf("...: %w", err)\<close>). A nil error is \<open>None\<close>.
\<close>

datatype go_error =
    StatusError Code string
  | PlainError string
  | ValidationError int string
  | WrapError string go_error

text \<open>\<^verbatim>\<open>strconv.Itoa\<close>.\<close>

function decimal :: "nat \<Rightarrow> string" where
  "decimal n =
     (if n < 10 then [char_of (of_char (CHR ''0'') + n)]
      else decimal (n div 10) @ [char_of (of_char (CHR ''0'') + n mod 10)])"
  by pat_completeness auto
termination
  by (relation "measure (\<lambda>n. n)") auto

declare decimal.simps [simp del]

definition Itoa :: "int \<Rightarrow> string" where
  "Itoa i = (if i < 0 then CHR ''-'' # decimal (nat (- i)) else decimal (nat i))"

definition Code_String :: "Code \<Rightarrow> string" where
  "Code_String c =
     (if unat c < 17
      then [''OK'', ''Canceled'', ''Unknown'', ''InvalidArgument'', ''DeadlineExceeded'',
            ''NotFound'', ''AlreadyExists'', ''PermissionDenied'', ''ResourceExhausted'',
            ''FailedPrecondition'', ''Aborted'', ''OutOfRange'', ''Unimplemented'',
            ''Internal'', ''Unavailable'', ''DataLoss'', ''Unauthenticated''] ! unat c
      else ''Code('' @ decimal (unat c) @ '')'')"

text \<open>The method \<^verbatim>\<open>Error() string\<close> of an error value.\<close>

fun error_Error :: "go_error \<Rightarrow> string" where
  "error_Error (StatusError c m) = ''rpc error: code = '' @ Code_String c @ '' desc = '' @ m"
| "error_Error (PlainError m) = m"
| "error_Error (ValidationError l m) =
     ''trace validation error at line '' @ Itoa l @ '': '' @ m"
| "error_Error (WrapError p e) = p @ error_Error e"

text \<open>
  \<^verbatim>\<open>status.Code(err)\<close> of gRPC: \<^verbatim>\<open>codes.OK\<close> for nil, the code of the status error that
  \<open>err\<close> is or wraps, else \<^verbatim>\<open>codes.Unknown\<close>.
\<close>

fun grpc_status :: "go_error \<Rightarrow> Code option" where
  "grpc_status (StatusError c m) = Some c"
| "grpc_status (PlainError m) = None"
| "grpc_status (ValidationError l m) = None"
| "grpc_status (WrapError p e) = grpc_status e"

definition status_Code :: "go_error option \<Rightarrow> Code" where
  "status_Code err =
     (case err of
        None \<Rightarrow> OK
      | Some e \<Rightarrow> (case grpc_status e of Some c \<Rightarrow> c | None \<Rightarrow> Unknown))"

definition IsConnectivityError :: "go_error option \<Rightarrow> bool" where
  "IsConnectivityError err =
     (if err = None then False
      else (let code = status_Code err
            in code = Unavailable \<or> code = DeadlineExceeded \<or> code = Canceled))"

definition IsConfigError :: "go_error option \<Rightarrow> bool" where
  "IsConfigError err =
     (if err = None then False
      else (let code = status_Code err
            in code = InvalidArgument \<or> code = Internal \<or> code = Unimplemented))"

section \<open>Trace events\<close>

definition SchemaV1_0 :: string where "SchemaV1_0 = ''1.0''"
definition EventTypeAuthzCheck :: string where "EventTypeAuthzCheck = ''authz_check''"
definition EventTypeAuthzError :: string where "EventTypeAuthzError = ''authz_error''"
definition OutcomeAllow :: string where "OutcomeAllow = ''ALLOW''"
definition OutcomeDeny :: string where "OutcomeDeny = ''DENY''"

text \<open>The structs of \<^verbatim>\<open>pkg/trace/types.go\<close>; a pointer field is an option.\<close>

record TraceContext =
  TraceID :: string
  SpanID :: string
  ParentSpanID :: string
  RequestID :: string

record Source =
  Channel :: string
  Name :: string

record Actor =
  Principal :: string
  PrincipalType :: string
  Groups :: "string list"
  Source :: "Source option"

record Target =
  Resource :: string
  ResourceType :: string
  Project :: string
  Location :: "string option"
  Service :: string

record APIDetails =
  Protocol :: string
  Operation :: string

record Action =
  Permission :: string
  Method :: string
  API :: "APIDetails option"

record Decision =
  Outcome :: string
  Reason :: string
  EvaluatedBy :: string
  LatencyMS :: "64 word"

record Condition =
  Title :: string
  Expression :: string
  Result :: bool

record MatchedBinding =
  Scope :: string
  ScopeID :: string
  Role :: string
  Member :: string
  Condition :: "Condition option"

record Policy =
  PolicyHash :: string
  MatchedBindings :: "MatchedBinding list"

record CI =
  Provider :: string
  RunID :: string
  Job :: string

record Environment =
  Mode :: string
  Component :: string
  Cluster :: string
  CI :: "CI option"

record AuthzError =
  Kind :: string
  Message :: string
  Retryable :: bool

record AuthzEvent =
  SchemaVersion :: string
  EventType :: string
  Timestamp :: string
  Trace :: "TraceContext option"
  Actor :: "Actor option"
  Target :: "Target option"
  Action :: "Action option"
  Decision :: "Decision option"
  Policy :: "Policy option"
  Environment :: "Environment option"
  Error :: "AuthzError option"

section \<open>The trace writer\<close>

text \<open>
  The sink of a writer is an \<^verbatim>\<open>io.WriteCloser\<close>: \<^verbatim>\<open>os.Stdout\<close> or a file opened for
  appending. Its state is the bytes it has received, whether the handle has been closed,
  and whether the device rejects writes (the environment's choice). A write is all or
  nothing.
\<close>

record File =
  is_stdout :: bool
  data :: string
  fd_closed :: bool
  io_fails :: bool

definition File_Write :: "File \<Rightarrow> string \<Rightarrow> go_error + File" where
  "File_Write f p =
     (if fd_closed f then Inl (PlainError ''file already closed'')
      else if io_fails f then Inl (PlainError ''input/output error'')
      else Inr (f\<lparr>data := data f @ p\<rparr>))"


text \<open>
  \<^verbatim>\<open>bufio.Writer\<close> with the default size of 4096 bytes: the buffered bytes and the sticky
  error. The underlying writer is the sink of the trace writer, passed along.
\<close>

record bufio_Writer =
  bw_buf :: string
  bw_err :: "go_error option"

definition bufio_Available :: "bufio_Writer \<Rightarrow> nat" where
  "bufio_Available b = 4096 - length (bw_buf b)"

definition bufio_Flush :: "bufio_Writer \<Rightarrow> File \<Rightarrow> go_error option \<times> bufio_Writer \<times> File" where
  "bufio_Flush b f =
     (if bw_err b \<noteq> None then (bw_err b, b, f)
      else if bw_buf b = [] then (None, b, f)
      else (case File_Write f (bw_buf b) of
              Inl e \<Rightarrow> (Some e, b\<lparr>bw_err := Some e\<rparr>, f)
            | Inr f' \<Rightarrow> (None, b\<lparr>bw_buf := []\<rparr>, f')))"

function bufio_Write ::
  "bufio_Writer \<Rightarrow> File \<Rightarrow> string \<Rightarrow> go_error option \<times> bufio_Writer \<times> File" where
  "bufio_Write b f p =
     (if length p > bufio_Available b \<and> bw_err b = None then
        (if bw_buf b = [] then
           (case File_Write f p of
              Inl e \<Rightarrow> bufio_Write (b\<lparr>bw_err := Some e\<rparr>) f p
            | Inr f' \<Rightarrow> bufio_Write b f' [])
         else
           (let n = bufio_Available b;
                r = bufio_Flush (b\<lparr>bw_buf := bw_buf b @ take n p\<rparr>) f
            in bufio_Write (fst (snd r)) (snd (snd r)) (drop n p)))
      else if bw_err b \<noteq> None then (bw_err b, b, f)
      else (None, b\<lparr>bw_buf := bw_buf b @ p\<rparr>, f))"
  by pat_completeness auto
termination
proof (relation "measure (\<lambda>(b, f, p).
          if bw_err b \<noteq> None then 0 else if bw_buf b = [] then (if p = [] then 0 else 1) else 2)")
  show "wf (measure (\<lambda>(b, f, p).
          if bw_err b \<noteq> None then 0 else if bw_buf b = [] then (if p = [] then 0 else (1::nat)) else 2))"
    by simp
qed (auto simp: bufio_Flush_def split: sum.splits)

declare bufio_Write.simps [simp del]

definition bufio_WriteByte ::
  "bufio_Writer \<Rightarrow> File \<Rightarrow> char \<Rightarrow> go_error option \<times> bufio_Writer \<times> File" where
  "bufio_WriteByte b f c =
     (if bw_err b \<noteq> None then (bw_err b, b, f)
      else if bufio_Available b \<le> 0 then
        (case bufio_Flush b f of
           (Some e, b', f') \<Rightarrow> (bw_err b', b', f')
         | (None, b', f') \<Rightarrow> (None, b'\<lparr>bw_buf := bw_buf b' @ [c]\<rparr>, f'))
      else (None, b\<lparr>bw_buf := bw_buf b @ [c]\<rparr>, f))"

text \<open>
  \<^verbatim>\<open>trace.Writer\<close>. A \<^verbatim>\<open>*Writer\<close> is an option: the methods accept the nil pointer. The
  methods change the writer in place; the model returns the writer after the call. The
  mutex is left out: the model is sequential. \<^verbatim>\<open>json.Marshal\<close> belongs to Go's standard
  library and is the parameter \<open>json_Marshal\<close>.
\<close>

record Writer =
  out :: File
  bw :: bufio_Writer
  closed :: bool

definition Emit ::
  "(AuthzEvent \<Rightarrow> go_error + string) \<Rightarrow> Writer option \<Rightarrow> AuthzEvent
    \<Rightarrow> go_error option \<times> Writer option" where
  "Emit json_Marshal wp ev =
     (case wp of
        None \<Rightarrow> (None, None)
      | Some w \<Rightarrow>
          if closed w then (Some (PlainError ''writer is closed''), Some w)
          else (case json_Marshal ev of
                  Inl e \<Rightarrow> (Some (WrapError ''failed to marshal trace event: '' e), Some w)
                | Inr bytes \<Rightarrow>
                    (case bufio_Write (bw w) (out w) bytes of
                       (Some e, b, f) \<Rightarrow>
                         (Some (WrapError ''failed to write trace event: '' e),
                          Some (w\<lparr>bw := b, out := f\<rparr>))
                     | (None, b, f) \<Rightarrow>
                         (case bufio_WriteByte b f (CHR 0x0A) of
                            (Some e, b', f') \<Rightarrow>
                              (Some (WrapError ''failed to write newline: '' e),
                               Some (w\<lparr>bw := b', out := f'\<rparr>))
                          | (None, b', f') \<Rightarrow> (None, Some (w\<lparr>bw := b', out := f'\<rparr>))))))"

definition Flush :: "Writer option \<Rightarrow> go_error option \<times> Writer option" where
  "Flush wp =
     (case wp of
        None \<Rightarrow> (None, None)
      | Some w \<Rightarrow>
          if closed w then (None, Some w)
          else (case bufio_Flush (bw w) (out w) of
                  (e, b, f) \<Rightarrow> (e, Some (w\<lparr>bw := b, out := f\<rparr>))))"


section \<open>The permission-check client\<close>

text \<open>
  The context of a call carries the outgoing gRPC metadata. Its deadline and its
  cancellation act on the outcome of the remote call only, which the stub decides.
\<close>

type_synonym Context = "(string \<times> string) list"

definition PrincipalMetadataKey :: string where
  "PrincipalMetadataKey = ''x-emulator-principal''"

definition InjectPrincipalToContext :: "Context \<Rightarrow> string \<Rightarrow> Context" where
  "InjectPrincipalToContext ctx princ =
     (if princ = [] then ctx else ctx @ [(PrincipalMetadataKey, princ)])"

record TestIamPermissionsRequest =
  req_Resource :: string
  req_Permissions :: "string list"

text \<open>
  \<^verbatim>\<open>iampb.IAMPolicyClient\<close>: the generated stub. \<^verbatim>\<open>TestIamPermissions\<close> returns an error
  or the response, whose only field is the list of granted permissions.
\<close>

type_synonym IAMPolicyClient =
  "Context \<Rightarrow> TestIamPermissionsRequest \<Rightarrow> go_error + string list"

text \<open>
  \<^verbatim>\<open>grpc.ClientConn\<close>: \<^verbatim>\<open>Close\<close> tears the connection down; on a connection that is
  already closed it returns \<^verbatim>\<open>grpc.ErrClientConnClosing\<close>.
\<close>

record ClientConn =
  conn_closed :: bool



record Client =
  client :: IAMPolicyClient
  conn :: "ClientConn option"
  mode :: AuthMode
  timeout :: "64 word"
  traceWriter :: "Writer option"

text \<open>\<^verbatim>\<open>time.Duration.Milliseconds\<close>: a duration is an \<^verbatim>\<open>int64\<close> of nanoseconds.\<close>

definition Milliseconds :: "64 word \<Rightarrow> 64 word" where
  "Milliseconds d = word_of_int (sint d sdiv 1000000)"

text \<open>
  The event that \<^verbatim>\<open>emitAuthzTrace\<close> builds. \<open>now\<close> is the result of
  \<^verbatim>\<open>trace.NowRFC3339Nano()\<close>.
\<close>

definition authz_check_event ::
  "Client \<Rightarrow> string \<Rightarrow> string \<Rightarrow> string \<Rightarrow> string \<Rightarrow> bool \<Rightarrow> 64 word \<Rightarrow> AuthzEvent" where
  "authz_check_event c now princ resource permission allowed duration =
     \<lparr>SchemaVersion = SchemaV1_0,
      EventType = EventTypeAuthzCheck,
      Timestamp = now,
      Trace = None,
      Actor = Some \<lparr>Principal = princ, PrincipalType = [], Groups = [], Source = None\<rparr>,
      Target = Some \<lparr>Resource = resource, ResourceType = [], Project = [], Location = None,
                     Service = []\<rparr>,
      Action = Some \<lparr>Permission = permission, Method = ''CheckPermission'', API = None\<rparr>,
      Decision = Some \<lparr>Outcome = (if allowed then OutcomeAllow else OutcomeDeny),
                       Reason = (if allowed then ''binding_match'' else ''no_matching_binding''),
                       EvaluatedBy = ''gcp-emulator-auth'',
                       LatencyMS = Milliseconds duration\<rparr>,
      Policy = None,
      Environment = Some \<lparr>Mode = mode c, Component = ''gcp-emulator-auth'', Cluster = [],
                          CI = None\<rparr>,
      Error = None\<rparr>"

definition emitAuthzTrace ::
  "(AuthzEvent \<Rightarrow> go_error + string) \<Rightarrow> Client \<Rightarrow> string \<Rightarrow> string \<Rightarrow> string \<Rightarrow> string
    \<Rightarrow> bool \<Rightarrow> 64 word \<Rightarrow> Client" where
  "emitAuthzTrace json_Marshal c now princ resource permission allowed duration =
     (if traceWriter c = None then c
      else (let event = authz_check_event c now princ resource permission allowed duration;
                w1 = snd (Emit json_Marshal (traceWriter c) event);
                w2 = snd (Flush w1)
            in c\<lparr>traceWriter := w2\<rparr>))"

text \<open>The event that \<^verbatim>\<open>emitErrorTrace\<close> builds.\<close>

definition authz_error_event :: "Client \<Rightarrow> string \<Rightarrow> go_error \<Rightarrow> AuthzEvent" where
  "authz_error_event c now err =
     \<lparr>SchemaVersion = SchemaV1_0,
      EventType = EventTypeAuthzError,
      Timestamp = now,
      Trace = None,
      Actor = None,
      Target = None,
      Action = None,
      Decision = None,
      Policy = None,
      Environment = Some \<lparr>Mode = mode c, Component = ''gcp-emulator-auth'', Cluster = [],
                          CI = None\<rparr>,
      Error = Some \<lparr>Kind = (if IsConnectivityError (Some err) then ''iam_unreachable''
                             else if IsConfigError (Some err) then ''invalid_request''
                             else ''policy_error''),
                    Message = error_Error err,
                    Retryable = (if IsConnectivityError (Some err) then True
                                 else if IsConfigError (Some err) then False
                                 else False)\<rparr>\<rparr>"

definition emitErrorTrace ::
  "(AuthzEvent \<Rightarrow> go_error + string) \<Rightarrow> Client \<Rightarrow> string \<Rightarrow> string \<Rightarrow> string \<Rightarrow> string
    \<Rightarrow> go_error \<Rightarrow> 64 word \<Rightarrow> Client" where
  "emitErrorTrace json_Marshal c now princ resource permission err duration =
     (if traceWriter c = None then c
      else (let event = authz_error_event c now err;
                w1 = snd (Emit json_Marshal (traceWriter c) event);
                w2 = snd (Flush w1)
            in c\<lparr>traceWriter := w2\<rparr>))"

text \<open>
  \<^verbatim>\<open>CheckPermission\<close>. Beside the arguments of the source it takes what the call reads
  from its environment: the JSON encoder, the time stamp of the trace event and the
  measured duration of the remote call. It returns the pair \<open>(allowed, err)\<close> and the
  client after the call (the trace writer is changed in place).
\<close>

definition CheckPermission ::
  "(AuthzEvent \<Rightarrow> go_error + string) \<Rightarrow> string \<Rightarrow> 64 word \<Rightarrow> Client \<Rightarrow> Context
    \<Rightarrow> string \<Rightarrow> string \<Rightarrow> string \<Rightarrow> (bool \<times> go_error option) \<times> Client" where
  "CheckPermission json_Marshal now duration c ctx princ resource permission =
     (let ctx1 = InjectPrincipalToContext ctx princ
      in case client c ctx1 \<lparr>req_Resource = resource, req_Permissions = [permission]\<rparr> of
           Inl err \<Rightarrow>
             (let c1 = emitErrorTrace json_Marshal c now princ resource permission err duration
              in if IsConnectivityError (Some err)
                 then (if mode c = AuthModePermissive then ((True, None), c1)
                       else ((False, Some err), c1))
                 else ((False, Some err), c1))
         | Inr resp_Permissions \<Rightarrow>
             (let allowed = (length resp_Permissions = 1);
                  c1 = emitAuthzTrace json_Marshal c now princ resource permission allowed
                         duration
              in ((allowed, None), c1)))"


section \<open>The trace validator\<close>

record Validator =
  SupportedSchemaVersions :: "string \<rightharpoonup> bool"

definition NewValidator :: Validator where
  "NewValidator = \<lparr>SupportedSchemaVersions = [SchemaV1_0 \<mapsto> True]\<rparr>"

text \<open>Indexing a \<^verbatim>\<open>map[string]bool\<close>: \<^verbatim>\<open>false\<close> for a missing key.\<close>

definition supported :: "Validator \<Rightarrow> string \<Rightarrow> bool" where
  "supported v ver = (case SupportedSchemaVersions v ver of Some b \<Rightarrow> b | None \<Rightarrow> False)"

definition ValidateEvent :: "Validator \<Rightarrow> AuthzEvent \<Rightarrow> go_error option" where
  "ValidateEvent v ev =
     (if SchemaVersion ev = [] then Some (PlainError ''missing schema_version'')
      else if \<not> supported v (SchemaVersion ev)
        then Some (PlainError (''unsupported schema_version: '' @ SchemaVersion ev))
      else if EventType ev = [] then Some (PlainError ''missing event_type'')
      else if Timestamp ev = [] then Some (PlainError ''missing timestamp'')
      else if EventType ev = EventTypeAuthzCheck then
        (if (case Actor ev of None \<Rightarrow> True | Some a \<Rightarrow> TrimSpace (Principal a) = [])
           then Some (PlainError ''missing actor.principal'')
         else if (case Target ev of None \<Rightarrow> True | Some t \<Rightarrow> TrimSpace (Resource t) = [])
           then Some (PlainError ''missing target.resource'')
         else if (case Action ev of None \<Rightarrow> True | Some a \<Rightarrow> TrimSpace (Permission a) = [])
           then Some (PlainError ''missing action.permission'')
         else (case Decision ev of
                 None \<Rightarrow> Some (PlainError ''missing decision.outcome'')
               | Some d \<Rightarrow>
                   if TrimSpace (Outcome d) = []
                     then Some (PlainError ''missing decision.outcome'')
                   else if Outcome d \<noteq> OutcomeAllow \<and> Outcome d \<noteq> OutcomeDeny
                     then Some (PlainError (''invalid decision.outcome: '' @ Outcome d))
                   else None))
      else if EventType ev = EventTypeAuthzError then
        (case Error ev of
           None \<Rightarrow> Some (PlainError ''missing error object'')
         | Some e \<Rightarrow>
             if TrimSpace (Kind e) = [] then Some (PlainError ''missing error.kind'')
             else if TrimSpace (Message e) = [] then Some (PlainError ''missing error.message'')
             else None)
      else Some (PlainError (''unknown event_type: '' @ EventType ev)))"

subsection \<open>Validating a file\<close>












section \<open>Example values\<close>

text \<open>
  Concrete values at which the theorems below are instantiated: a stub whose call fails
  with a given error or succeeds with given permissions, a client around it, a JSON
  encoder that renders every event as an empty object, and a trace writer on an empty
  file.
\<close>

definition failing_stub :: "go_error \<Rightarrow> IAMPolicyClient" where
  "failing_stub e = (\<lambda>ctx req. Inl e)"

definition granting_stub :: "string list \<Rightarrow> IAMPolicyClient" where
  "granting_stub ps = (\<lambda>ctx req. Inr ps)"

definition example_client :: "IAMPolicyClient \<Rightarrow> AuthMode \<Rightarrow> Writer option \<Rightarrow> Client" where
  "example_client stub m w =
     \<lparr>client = stub, conn = Some \<lparr>conn_closed = False\<rparr>, mode = m,
      timeout = 2000000000, traceWriter = w\<rparr>"

definition example_marshal :: "AuthzEvent \<Rightarrow> go_error + string" where
  "example_marshal ev = Inr ''{}''"

definition example_writer :: Writer where
  "example_writer =
     \<lparr>out = \<lparr>is_stdout = False, data = [], fd_closed = False, io_fails = False\<rparr>,
      bw = \<lparr>bw_buf = [], bw_err = None\<rparr>,
      closed = False\<rparr>"




section \<open>Properties of the string functions\<close>

lemma prefix_len_le: "prefix_len es s \<le> length s"
proof (induction es)
  case Nil
  show ?case by simp
next
  case (Cons e es)
  have "take (length e) s = e \<Longrightarrow> length e \<le> length s"
    by (metis length_take min.cobounded1)
  with Cons show ?case by simp
qed

lemma strip_fix: "prefix_len es s = 0 \<Longrightarrow> strip es s = s"
  by (simp add: strip.simps)

lemma prefix_len_strip: "prefix_len es (strip es s) = 0"
proof (induction es s rule: strip.induct)
  case (1 es s)
  show ?case
  proof (cases "prefix_len es s = 0")
    case True
    then show ?thesis by (simp add: strip_fix)
  next
    case False
    with 1 show ?thesis by (subst strip.simps) simp
  qed
qed

lemma strip_idem: "strip es (strip es s) = strip es s"
  by (rule strip_fix) (rule prefix_len_strip)

lemma strip_suffix: "\<exists>p. s = p @ strip es s"
proof (induction es s rule: strip.induct)
  case (1 es s)
  show ?case
  proof (cases "prefix_len es s = 0")
    case True
    then show ?thesis by (simp add: strip_fix)
  next
    case False
    with 1 obtain p where p: "drop (prefix_len es s) s = p @ strip es (drop (prefix_len es s) s)"
      by blast
    have "strip es s = strip es (drop (prefix_len es s) s)"
      using False by (subst strip.simps) simp
    with p have "s = (take (prefix_len es s) s @ p) @ strip es s"
      by (metis append.assoc append_take_drop_id)
    then show ?thesis by blast
  qed
qed

lemma prefix_len_append: "prefix_len es s \<noteq> 0 \<Longrightarrow> prefix_len es (s @ t) \<noteq> 0"
proof (induction es)
  case Nil
  then show ?case by simp
next
  case (Cons e es)
  show ?case
  proof (cases "e \<noteq> [] \<and> take (length e) s = e")
    case True
    then have "length e \<le> length s" by (metis length_take min.cobounded1)
    with True have "take (length e) (s @ t) = e" by simp
    with True show ?thesis by simp
  next
    case False
    with Cons show ?thesis by auto
  qed
qed

text \<open>Trimming a trimmed string changes nothing.\<close>

lemma TrimSpace_idem: "TrimSpace (TrimSpace s) = TrimSpace s"
proof -
  define a where "a = strip unicode_spaces s"
  define b where "b = rev (strip (map rev unicode_spaces) (rev a))"
  obtain p where "rev a = p @ strip (map rev unicode_spaces) (rev a)"
    using strip_suffix by blast
  then have "a = b @ rev p" unfolding b_def by (metis rev_append rev_rev_ident)
  moreover have "prefix_len unicode_spaces a = 0" unfolding a_def by (rule prefix_len_strip)
  ultimately have "prefix_len unicode_spaces b = 0" using prefix_len_append by metis
  then have "strip unicode_spaces b = b" by (rule strip_fix)
  moreover have "rev (strip (map rev unicode_spaces) (rev b)) = b"
    unfolding b_def by (simp add: strip_idem)
  ultimately show ?thesis
    unfolding TrimSpace_def TrimLeft_def TrimRight_def a_def b_def by simp
qed

lemma set_strip: "set (strip es s) \<subseteq> set s"
proof -
  obtain p where "s = p @ strip es s" using strip_suffix by blast
  then have "set s = set p \<union> set (strip es s)" by (metis set_append)
  then show ?thesis by blast
qed

lemma set_TrimSpace: "set (TrimSpace s) \<subseteq> set s"
proof -
  have "set (TrimSpace s) \<subseteq> set (strip unicode_spaces s)"
    unfolding TrimSpace_def TrimLeft_def TrimRight_def
    using set_strip [of "map rev unicode_spaces" "rev (strip unicode_spaces s)"] by simp
  with set_strip [of unicode_spaces s] show ?thesis by blast
qed

lemma isASCII_TrimSpace: "isASCII s \<Longrightarrow> isASCII (TrimSpace s)"
  using set_TrimSpace [of s] by (auto simp: isASCII_def list_all_iff)

text \<open>No byte of a white-space sequence is a letter, so lower-casing and trimming commute.\<close>

lemma space_bytes_not_letters:
  "c \<in> set (concat unicode_spaces) \<Longrightarrow> \<not> (65 \<le> (of_char c :: nat) \<and> (of_char c :: nat) \<le> 122)"
  by (auto simp: unicode_spaces_def)

lemma of_char_ascii_lower:
  "isUpper c \<Longrightarrow> (of_char (ascii_lower c) :: nat) = of_char c + 32"
  by (simp add: ascii_lower_def isUpper_def)

lemma ascii_lower_fix: "c \<in> set (concat unicode_spaces) \<Longrightarrow> ascii_lower c = c"
  using space_bytes_not_letters [of c] by (auto simp: ascii_lower_def isUpper_def)

lemma ascii_lower_refl: "ascii_lower c \<in> set (concat unicode_spaces) \<Longrightarrow> ascii_lower c = c"
proof (cases "isUpper c")
  case True
  assume a: "ascii_lower c \<in> set (concat unicode_spaces)"
  from True have "(of_char (ascii_lower c) :: nat) = of_char c + 32"
    by (rule of_char_ascii_lower)
  moreover from True have "65 \<le> (of_char c :: nat) \<and> (of_char c :: nat) \<le> 90"
    by (simp add: isUpper_def)
  ultimately have
    "65 \<le> (of_char (ascii_lower c) :: nat) \<and> (of_char (ascii_lower c) :: nat) \<le> 122"
    by simp
  with space_bytes_not_letters [OF a] show ?thesis by simp
next
  case False
  then show ?thesis by (simp add: ascii_lower_def)
qed

lemma map_eq_stable:
  assumes "set e \<subseteq> set (concat unicode_spaces)"
  shows "(map ascii_lower y = e) = (y = e)"
  using assms
proof (induction y arbitrary: e)
  case Nil
  then show ?case by auto
next
  case (Cons a y)
  show ?case
  proof (cases e)
    case Nil
    then show ?thesis by simp
  next
    case (Cons b e')
    with Cons.prems have b: "b \<in> set (concat unicode_spaces)"
      and e': "set e' \<subseteq> set (concat unicode_spaces)"
      by auto
    have "(ascii_lower a = b) = (a = b)"
      using b ascii_lower_fix ascii_lower_refl by metis
    with Cons.IH [OF e'] Cons show ?thesis by simp
  qed
qed

lemma prefix_len_map:
  "\<forall>e\<in>set es. set e \<subseteq> set (concat unicode_spaces) \<Longrightarrow>
   prefix_len es (map ascii_lower s) = prefix_len es s"
proof (induction es)
  case Nil
  show ?case by simp
next
  case (Cons e es)
  then have "set e \<subseteq> set (concat unicode_spaces)" by simp
  then have "(map ascii_lower (take (length e) s) = e) = (take (length e) s = e)"
    by (rule map_eq_stable)
  with Cons show ?case by (simp add: take_map)
qed

lemma strip_map:
  "\<forall>e\<in>set es. set e \<subseteq> set (concat unicode_spaces) \<Longrightarrow>
   strip es (map ascii_lower s) = map ascii_lower (strip es s)"
proof (induction es s rule: strip.induct)
  case (1 es s)
  note pl = prefix_len_map [OF "1.prems", of s]
  show ?case
  proof (cases "prefix_len es s = 0")
    case True
    with pl show ?thesis by (simp add: strip_fix)
  next
    case False
    have "strip es (map ascii_lower s) = strip es (drop (prefix_len es s) (map ascii_lower s))"
      using False pl by (subst strip.simps) simp
    also have "\<dots> = map ascii_lower (strip es (drop (prefix_len es s) s))"
      using "1.IH" [OF False "1.prems"] by (simp add: drop_map)
    also have "\<dots> = map ascii_lower (strip es s)"
      using False by (subst (2) strip.simps) simp
    finally show ?thesis .
  qed
qed

lemma TrimSpace_map_lower: "TrimSpace (map ascii_lower s) = map ascii_lower (TrimSpace s)"
proof -
  have 1: "\<forall>e\<in>set unicode_spaces. set e \<subseteq> set (concat unicode_spaces)" by auto
  have 2: "\<forall>e\<in>set (map rev unicode_spaces). set e \<subseteq> set (concat unicode_spaces)" by auto
  show ?thesis
    unfolding TrimSpace_def TrimLeft_def TrimRight_def
    by (simp add: strip_map [OF 1] strip_map [OF 2] rev_map)
qed

lemma ToLower_ascii: "isASCII s \<Longrightarrow> ToLower U s = map ascii_lower s"
proof -
  assume a: "isASCII s"
  have "\<not> hasUpper s \<Longrightarrow> map ascii_lower s = s"
    by (induction s) (auto simp: hasUpper_def ascii_lower_def)
  with a show ?thesis by (simp add: ToLower_def)
qed

lemma ascii_lower_idem: "ascii_lower (ascii_lower c) = ascii_lower c"
proof (cases "isUpper c")
  case True
  then have "(of_char (ascii_lower c) :: nat) = of_char c + 32" by (rule of_char_ascii_lower)
  moreover from True have "65 \<le> (of_char c :: nat)" by (simp add: isUpper_def)
  ultimately have "\<not> isUpper (ascii_lower c)" by (simp add: isUpper_def)
  then show ?thesis by (simp add: ascii_lower_def)
next
  case False
  then show ?thesis by (simp add: ascii_lower_def)
qed

lemma isASCII_map_lower: "isASCII s \<Longrightarrow> isASCII (map ascii_lower s)"
proof -
  have "(of_char (ascii_lower c) :: nat) < 128" if "(of_char c :: nat) < 128" for c
  proof (cases "isUpper c")
    case True
    then show ?thesis by (simp add: of_char_ascii_lower isUpper_def)
  next
    case False
    with that show ?thesis by (simp add: ascii_lower_def)
  qed
  then show "isASCII s \<Longrightarrow> isASCII (map ascii_lower s)"
    by (auto simp: isASCII_def list_all_iff)
qed

text \<open>
  Trimming and lower-casing is idempotent: outright when the trimmed string is ASCII, and
  for the other strings when the Unicode lower-casing of a trimmed string is left
  unchanged by trimming and lower-casing.
\<close>

lemma normal_form_ascii:
  assumes "isASCII (TrimSpace s)"
  shows "ToLower U (TrimSpace (ToLower U (TrimSpace s))) = ToLower U (TrimSpace s)"
proof -
  define n where "n = map ascii_lower (TrimSpace s)"
  have n: "ToLower U (TrimSpace s) = n" using assms by (simp add: ToLower_ascii n_def)
  have "TrimSpace n = n" by (simp add: n_def TrimSpace_map_lower TrimSpace_idem)
  moreover have "isASCII n" using assms by (simp add: n_def isASCII_map_lower)
  then have "ToLower U n = map ascii_lower n" by (rule ToLower_ascii)
  moreover have "map ascii_lower n = n" by (simp add: n_def ascii_lower_idem)
  ultimately show ?thesis using n by simp
qed

lemma normal_form_idem:
  assumes H: "\<And>t. \<not> isASCII t \<Longrightarrow> TrimSpace t = t \<Longrightarrow> ToLower U (TrimSpace (U t)) = U t"
  shows "ToLower U (TrimSpace (ToLower U (TrimSpace s))) = ToLower U (TrimSpace s)"
proof (cases "isASCII (TrimSpace s)")
  case True
  then show ?thesis by (rule normal_form_ascii)
next
  case False
  then have "ToLower U (TrimSpace s) = U (TrimSpace s)" by (simp add: ToLower_def)
  moreover have "ToLower U (TrimSpace (U (TrimSpace s))) = U (TrimSpace s)"
    using False TrimSpace_idem by (rule H)
  ultimately show ?thesis by simp
qed

section \<open>The mode policy\<close>

text \<open>
  Claim C9. \<open>ParseAuthMode s\<close> equals \<open>ParseAuthMode\<close> of the lower-cased, trimmed form
  of \<open>s\<close>: for every string of ASCII bytes, and for every string when the Unicode
  lower-casing of the standard library (the parameter \<open>U\<close>) yields strings that trimming
  and lower-casing leave unchanged. It returns \<open>permissive\<close> exactly when that form is
  "permissive", \<open>strict\<close> exactly when it is "strict", and \<open>off\<close> in every other case,
  among them the empty string and "off". \<open>IsEnabled\<close> is false exactly for \<open>off\<close> and
  true for \<open>permissive\<close> and \<open>strict\<close>.
\<close>

theorem ParseAuthMode_normal_form:
  "((\<forall>t. \<not> isASCII t \<and> TrimSpace t = t \<longrightarrow> ToLower U (TrimSpace (U t)) = U t) \<longrightarrow>
      ParseAuthMode U s = ParseAuthMode U (ToLower U (TrimSpace s)))
   \<and> (isASCII s \<longrightarrow> ParseAuthMode U s = ParseAuthMode U (ToLower U (TrimSpace s)))
   \<and> ParseAuthMode U ''permissive'' = AuthModePermissive
   \<and> ParseAuthMode U ''strict'' = AuthModeStrict
   \<and> ParseAuthMode U ''off'' = AuthModeOff
   \<and> ParseAuthMode U [] = AuthModeOff
   \<and> (ParseAuthMode U s = AuthModePermissive \<longleftrightarrow> ToLower U (TrimSpace s) = ''permissive'')
   \<and> (ParseAuthMode U s = AuthModeStrict \<longleftrightarrow> ToLower U (TrimSpace s) = ''strict'')
   \<and> (ParseAuthMode U s = AuthModeOff \<longleftrightarrow>
        ToLower U (TrimSpace s) \<noteq> ''permissive'' \<and> ToLower U (TrimSpace s) \<noteq> ''strict'')
   \<and> (IsEnabled m \<longleftrightarrow> m \<noteq> AuthModeOff)
   \<and> \<not> IsEnabled AuthModeOff \<and> IsEnabled AuthModePermissive \<and> IsEnabled AuthModeStrict"
proof -
  have a: "ParseAuthMode U s = ParseAuthMode U (ToLower U (TrimSpace s))"
    if "ToLower U (TrimSpace (ToLower U (TrimSpace s))) = ToLower U (TrimSpace s)"
    using that by (simp add: ParseAuthMode_def)
  have 1: "(\<forall>t. \<not> isASCII t \<and> TrimSpace t = t \<longrightarrow> ToLower U (TrimSpace (U t)) = U t) \<longrightarrow>
      ParseAuthMode U s = ParseAuthMode U (ToLower U (TrimSpace s))"
    using a normal_form_idem [of U s] by blast
  have 2: "isASCII s \<longrightarrow> ParseAuthMode U s = ParseAuthMode U (ToLower U (TrimSpace s))"
    using a normal_form_ascii [of s U] isASCII_TrimSpace [of s] by blast
  have t1: "TrimSpace ''permissive'' = ''permissive''" by code_simp
  have t2: "TrimSpace ''strict'' = ''strict''" by code_simp
  have t3: "TrimSpace ''off'' = ''off''" by code_simp
  have t4: "TrimSpace [] = []" by code_simp
  have l1: "ToLower U ''permissive'' = ''permissive''"
    by (simp add: ToLower_def isASCII_def hasUpper_def isUpper_def)
  have l2: "ToLower U ''strict'' = ''strict''"
    by (simp add: ToLower_def isASCII_def hasUpper_def isUpper_def)
  have l3: "ToLower U ''off'' = ''off''"
    by (simp add: ToLower_def isASCII_def hasUpper_def isUpper_def)
  have l4: "ToLower U [] = []"
    by (simp add: ToLower_def isASCII_def hasUpper_def isUpper_def)
  have 3: "ParseAuthMode U ''permissive'' = AuthModePermissive"
    by (simp add: ParseAuthMode_def t1 l1)
  have 4: "ParseAuthMode U ''strict'' = AuthModeStrict"
    by (simp add: ParseAuthMode_def t2 l2)
  have 5: "ParseAuthMode U ''off'' = AuthModeOff"
    by (simp add: ParseAuthMode_def t3 l3)
  have 6: "ParseAuthMode U [] = AuthModeOff"
    by (simp add: ParseAuthMode_def t4 l4)
  have 7: "ParseAuthMode U s = AuthModePermissive \<longleftrightarrow> ToLower U (TrimSpace s) = ''permissive''"
    by (simp add: ParseAuthMode_def AuthModePermissive_def AuthModeStrict_def AuthModeOff_def
        Let_def)
  have 8: "ParseAuthMode U s = AuthModeStrict \<longleftrightarrow> ToLower U (TrimSpace s) = ''strict''"
    by (simp add: ParseAuthMode_def AuthModePermissive_def AuthModeStrict_def AuthModeOff_def
        Let_def)
  have 9: "ParseAuthMode U s = AuthModeOff \<longleftrightarrow>
        ToLower U (TrimSpace s) \<noteq> ''permissive'' \<and> ToLower U (TrimSpace s) \<noteq> ''strict''"
    by (simp add: ParseAuthMode_def AuthModePermissive_def AuthModeStrict_def AuthModeOff_def
        Let_def)
  have 10: "(IsEnabled m \<longleftrightarrow> m \<noteq> AuthModeOff)
   \<and> \<not> IsEnabled AuthModeOff \<and> IsEnabled AuthModePermissive \<and> IsEnabled AuthModeStrict"
    by (simp add: IsEnabled_def AuthModePermissive_def AuthModeStrict_def AuthModeOff_def)
  from 1 2 3 4 5 6 7 8 9 10 show ?thesis by blast
qed

theorem ParseAuthMode_normal_form_witness:
  "isASCII '' StRiCt ''
   \<and> ToLower (\<lambda>x. x) (TrimSpace '' StRiCt '') = ''strict''
   \<and> ParseAuthMode (\<lambda>x. x) '' StRiCt '' = ParseAuthMode (\<lambda>x. x) ''strict''
   \<and> ParseAuthMode (\<lambda>x. x) '' StRiCt '' = AuthModeStrict
   \<and> IsEnabled (ParseAuthMode (\<lambda>x. x) '' StRiCt '')"
proof -
  have H: "\<forall>t. \<not> isASCII t \<and> TrimSpace t = t \<longrightarrow>
        ToLower (\<lambda>x. x) (TrimSpace ((\<lambda>x. x) t)) = (\<lambda>x. x) t"
    by (simp add: ToLower_def)
  have A: "isASCII '' StRiCt ''" by (simp add: isASCII_def)
  have n: "ToLower (\<lambda>x. x) (TrimSpace '' StRiCt '') = ''strict''" by code_simp
  note T = ParseAuthMode_normal_form [of "\<lambda>x. x" "'' StRiCt ''" "ParseAuthMode (\<lambda>x. x) '' StRiCt ''"]
  from T H have 1: "ParseAuthMode (\<lambda>x. x) '' StRiCt '' = ParseAuthMode (\<lambda>x. x) ''strict''"
    using n by simp
  from T n have 2: "ParseAuthMode (\<lambda>x. x) '' StRiCt '' = AuthModeStrict" by simp
  from T 2 have 3: "IsEnabled (ParseAuthMode (\<lambda>x. x) '' StRiCt '')"
    by (simp add: AuthModeStrict_def AuthModeOff_def)
  from A n 1 2 3 show ?thesis by blast
qed

section \<open>The error classifier\<close>

text \<open>
  Claim C3. \<open>IsConnectivityError\<close> holds exactly for a non-nil error whose status code
  is Unavailable, DeadlineExceeded or Canceled, \<open>IsConfigError\<close> exactly for a non-nil
  error whose code is InvalidArgument, Internal or Unimplemented; both are false for the
  nil error; no error satisfies both; PermissionDenied, NotFound and Unauthenticated
  satisfy neither.
\<close>

theorem classifiers_fixed_sets_exclusive:
  "(IsConnectivityError e \<longleftrightarrow>
      e \<noteq> None \<and> status_Code e \<in> {Unavailable, DeadlineExceeded, Canceled})
   \<and> (IsConfigError e \<longleftrightarrow>
      e \<noteq> None \<and> status_Code e \<in> {InvalidArgument, Internal, Unimplemented})
   \<and> \<not> IsConnectivityError None \<and> \<not> IsConfigError None
   \<and> \<not> (IsConnectivityError e \<and> IsConfigError e)
   \<and> \<not> IsConnectivityError (Some (StatusError PermissionDenied msg))
   \<and> \<not> IsConfigError (Some (StatusError PermissionDenied msg))
   \<and> \<not> IsConnectivityError (Some (StatusError NotFound msg))
   \<and> \<not> IsConfigError (Some (StatusError NotFound msg))
   \<and> \<not> IsConnectivityError (Some (StatusError Unauthenticated msg))
   \<and> \<not> IsConfigError (Some (StatusError Unauthenticated msg))"
proof -
  have 1: "IsConnectivityError e \<longleftrightarrow>
      e \<noteq> None \<and> status_Code e \<in> {Unavailable, DeadlineExceeded, Canceled}"
    by (auto simp: IsConnectivityError_def Let_def)
  have 2: "IsConfigError e \<longleftrightarrow>
      e \<noteq> None \<and> status_Code e \<in> {InvalidArgument, Internal, Unimplemented}"
    by (auto simp: IsConfigError_def Let_def)
  have 3: "\<not> IsConnectivityError None \<and> \<not> IsConfigError None"
    by (simp add: IsConnectivityError_def IsConfigError_def)
  have 4: "\<not> (IsConnectivityError e \<and> IsConfigError e)"
    by (auto simp: IsConnectivityError_def IsConfigError_def Let_def Unavailable_def
        DeadlineExceeded_def Canceled_def InvalidArgument_def Internal_def Unimplemented_def)
  have 5: "\<not> IsConnectivityError (Some (StatusError PermissionDenied msg))
      \<and> \<not> IsConfigError (Some (StatusError PermissionDenied msg))
      \<and> \<not> IsConnectivityError (Some (StatusError NotFound msg))
      \<and> \<not> IsConfigError (Some (StatusError NotFound msg))
      \<and> \<not> IsConnectivityError (Some (StatusError Unauthenticated msg))
      \<and> \<not> IsConfigError (Some (StatusError Unauthenticated msg))"
    by (simp add: IsConnectivityError_def IsConfigError_def status_Code_def Let_def
        Unavailable_def DeadlineExceeded_def Canceled_def InvalidArgument_def Internal_def
        Unimplemented_def PermissionDenied_def NotFound_def Unauthenticated_def)
  from 1 2 3 4 5 show ?thesis by blast
qed

theorem classifiers_fixed_sets_exclusive_witness:
  "IsConnectivityError (Some (StatusError Unavailable ''service unavailable''))
   \<and> \<not> IsConfigError (Some (StatusError Unavailable ''service unavailable''))
   \<and> status_Code (Some (StatusError Unavailable ''service unavailable'')) = Unavailable"
proof -
  have c: "status_Code (Some (StatusError Unavailable ''service unavailable'')) = Unavailable"
    by (simp add: status_Code_def)
  note T = classifiers_fixed_sets_exclusive
             [of "Some (StatusError Unavailable ''service unavailable'')" "''x''"]
  from T c have 1: "IsConnectivityError (Some (StatusError Unavailable ''service unavailable''))"
    by blast
  from T 1 have 2: "\<not> IsConfigError (Some (StatusError Unavailable ''service unavailable''))"
    by blast
  from 1 2 c show ?thesis by blast
qed

section \<open>The decision of CheckPermission\<close>

lemma CheckPermission_failure:
  assumes "client c (InjectPrincipalToContext ctx princ)
             \<lparr>req_Resource = resource, req_Permissions = [permission]\<rparr> = Inl e"
  shows "fst (CheckPermission jm now d c ctx princ resource permission) =
           (if IsConnectivityError (Some e) \<and> mode c = AuthModePermissive
            then (True, None) else (False, Some e))"
  using assms by (simp add: CheckPermission_def Let_def)

lemma CheckPermission_success:
  assumes "client c (InjectPrincipalToContext ctx princ)
             \<lparr>req_Resource = resource, req_Permissions = [permission]\<rparr> = Inr P"
  shows "fst (CheckPermission jm now d c ctx princ resource permission) = (length P = 1, None)"
  using assms by (simp add: CheckPermission_def Let_def)

text \<open>
  Claim C1. When the remote call fails with the error \<open>e\<close>: a connectivity error in
  permissive mode gives \<open>(true, nil)\<close>; a connectivity error in strict or off mode (in
  any mode but permissive) gives \<open>(false, e)\<close>; an error that is not a connectivity error
  gives \<open>(false, e)\<close> in every mode.
\<close>

theorem CheckPermission_remote_failure:
  assumes "client c (InjectPrincipalToContext ctx princ)
             \<lparr>req_Resource = resource, req_Permissions = [permission]\<rparr> = Inl e"
  shows "(IsConnectivityError (Some e) \<and> mode c = AuthModePermissive \<longrightarrow>
            fst (CheckPermission jm now d c ctx princ resource permission) = (True, None))
       \<and> (IsConnectivityError (Some e) \<and> (mode c = AuthModeStrict \<or> mode c = AuthModeOff) \<longrightarrow>
            fst (CheckPermission jm now d c ctx princ resource permission) = (False, Some e))
       \<and> (IsConnectivityError (Some e) \<and> mode c \<noteq> AuthModePermissive \<longrightarrow>
            fst (CheckPermission jm now d c ctx princ resource permission) = (False, Some e))
       \<and> (\<not> IsConnectivityError (Some e) \<longrightarrow>
            fst (CheckPermission jm now d c ctx princ resource permission) = (False, Some e))"
  using CheckPermission_failure [OF assms, of jm now d]
  by (auto simp: AuthModeStrict_def AuthModeOff_def AuthModePermissive_def)

theorem CheckPermission_remote_failure_witness:
  "fst (CheckPermission example_marshal ''2026-01-27T18:03:12Z'' 1500000
          (example_client (failing_stub (StatusError Unavailable ''down'')) AuthModePermissive
             (Some example_writer))
          [] ''user:alice@example.com'' ''projects/p/secrets/s'' ''secretmanager.secrets.get'')
     = (True, None)
   \<and> fst (CheckPermission example_marshal ''2026-01-27T18:03:12Z'' 1500000
          (example_client (failing_stub (StatusError Unavailable ''down'')) AuthModeStrict
             (Some example_writer))
          [] ''user:alice@example.com'' ''projects/p/secrets/s'' ''secretmanager.secrets.get'')
     = (False, Some (StatusError Unavailable ''down''))
   \<and> fst (CheckPermission example_marshal ''2026-01-27T18:03:12Z'' 1500000
          (example_client (failing_stub (StatusError InvalidArgument ''bad'')) AuthModePermissive
             (Some example_writer))
          [] ''user:alice@example.com'' ''projects/p/secrets/s'' ''secretmanager.secrets.get'')
     = (False, Some (StatusError InvalidArgument ''bad''))"
proof -
  have conn: "IsConnectivityError (Some (StatusError Unavailable ''down''))"
    by (simp add: IsConnectivityError_def status_Code_def)
  have conf: "\<not> IsConnectivityError (Some (StatusError InvalidArgument ''bad''))"
    by (simp add: IsConnectivityError_def status_Code_def InvalidArgument_def Unavailable_def
        DeadlineExceeded_def Canceled_def)
  have call: "client (example_client (failing_stub e) m w) (InjectPrincipalToContext ctx p)
      \<lparr>req_Resource = r, req_Permissions = [q]\<rparr> = Inl e" for e m w ctx p r q
    by (simp add: example_client_def failing_stub_def)
  have m1: "mode (example_client s AuthModePermissive w) = AuthModePermissive" for s w
    by (simp add: example_client_def)
  have m2: "mode (example_client s AuthModeStrict w) = AuthModeStrict" for s w
    by (simp add: example_client_def)
  from CheckPermission_remote_failure [OF call, where e = "StatusError Unavailable ''down''"
      and jm = example_marshal and now = "''2026-01-27T18:03:12Z''" and d = 1500000]
    conn m1
  have 1: "fst (CheckPermission example_marshal ''2026-01-27T18:03:12Z'' 1500000
          (example_client (failing_stub (StatusError Unavailable ''down'')) AuthModePermissive
             (Some example_writer))
          [] ''user:alice@example.com'' ''projects/p/secrets/s'' ''secretmanager.secrets.get'')
     = (True, None)"
    by simp
  from CheckPermission_remote_failure [OF call, where e = "StatusError Unavailable ''down''"
      and jm = example_marshal and now = "''2026-01-27T18:03:12Z''" and d = 1500000]
    conn m2
  have 2: "fst (CheckPermission example_marshal ''2026-01-27T18:03:12Z'' 1500000
          (example_client (failing_stub (StatusError Unavailable ''down'')) AuthModeStrict
             (Some example_writer))
          [] ''user:alice@example.com'' ''projects/p/secrets/s'' ''secretmanager.secrets.get'')
     = (False, Some (StatusError Unavailable ''down''))"
    by simp
  from CheckPermission_remote_failure [OF call, where e = "StatusError InvalidArgument ''bad''"
      and jm = example_marshal and now = "''2026-01-27T18:03:12Z''" and d = 1500000]
    conf
  have 3: "fst (CheckPermission example_marshal ''2026-01-27T18:03:12Z'' 1500000
          (example_client (failing_stub (StatusError InvalidArgument ''bad'')) AuthModePermissive
             (Some example_writer))
          [] ''user:alice@example.com'' ''projects/p/secrets/s'' ''secretmanager.secrets.get'')
     = (False, Some (StatusError InvalidArgument ''bad''))"
    by simp
  from 1 2 3 show ?thesis by blast
qed

text \<open>
  Claim C2, as stated, fails: the client asks for one permission and the remote call
  answers with one granted permission that is another one; \<open>CheckPermission\<close> allows.
\<close>

theorem CheckPermission_other_permission_counterexample:
  "fst (CheckPermission example_marshal ''2026-01-27T18:03:12Z'' 1500000
          (example_client (granting_stub [''secretmanager.secrets.delete'']) AuthModeStrict None)
          [] ''user:alice@example.com'' ''projects/p/secrets/s'' ''secretmanager.secrets.get'')
     = (True, None)
   \<and> [''secretmanager.secrets.delete''] \<noteq> [''secretmanager.secrets.get'']"
  by (simp add: CheckPermission_def example_client_def granting_stub_def emitAuthzTrace_def)

text \<open>
  Claim C2, amended. When the remote call succeeds with the granted permissions \<open>P\<close>,
  \<open>CheckPermission\<close> returns \<open>(allowed, nil)\<close> where \<open>allowed\<close> is true exactly when \<open>P\<close>
  has exactly one element. When \<open>P\<close> is empty it returns \<open>(false, nil)\<close>, in every mode.
  When the remote call grants only what was asked for, without repetition, \<open>allowed\<close> is
  true exactly when \<open>P\<close> is the single requested permission.
\<close>

theorem CheckPermission_remote_success:
  assumes "client c (InjectPrincipalToContext ctx princ)
             \<lparr>req_Resource = resource, req_Permissions = [permission]\<rparr> = Inr P"
  shows "fst (CheckPermission jm now d c ctx princ resource permission) = (length P = 1, None)
       \<and> (P = [] \<longrightarrow>
            fst (CheckPermission jm now d c ctx princ resource permission) = (False, None))
       \<and> (set P \<subseteq> {permission} \<and> distinct P \<longrightarrow>
            (fst (fst (CheckPermission jm now d c ctx princ resource permission)) \<longleftrightarrow>
               P = [permission]))"
proof -
  note r = CheckPermission_success [OF assms, of jm now d]
  have "length P = 1 \<longleftrightarrow> P = [permission]" if "set P \<subseteq> {permission}" and "distinct P"
  proof (cases P)
    case Nil
    then show ?thesis by simp
  next
    case (Cons x xs)
    with that have "x = permission" and "set xs \<subseteq> {permission}" and "x \<notin> set xs"
      by auto
    then have "xs = []" by (cases xs) auto
    with Cons \<open>x = permission\<close> show ?thesis by simp
  qed
  with r show ?thesis by simp
qed

theorem CheckPermission_remote_success_witness:
  "fst (CheckPermission example_marshal ''2026-01-27T18:03:12Z'' 1500000
          (example_client (granting_stub [''secretmanager.secrets.get'']) AuthModeStrict
             (Some example_writer))
          [] ''user:alice@example.com'' ''projects/p/secrets/s'' ''secretmanager.secrets.get'')
     = (True, None)
   \<and> fst (CheckPermission example_marshal ''2026-01-27T18:03:12Z'' 1500000
          (example_client (granting_stub []) AuthModePermissive (Some example_writer))
          [] ''user:alice@example.com'' ''projects/p/secrets/s'' ''secretmanager.secrets.get'')
     = (False, None)"
proof -
  have call: "client (example_client (granting_stub P) m w) (InjectPrincipalToContext ctx p)
      \<lparr>req_Resource = r, req_Permissions = [q]\<rparr> = Inr P" for P m w ctx p r q
    by (simp add: example_client_def granting_stub_def)
  from CheckPermission_remote_success [OF call,
      where P = "[''secretmanager.secrets.get'']" and jm = example_marshal
        and now = "''2026-01-27T18:03:12Z''" and d = 1500000]
  have 1: "fst (CheckPermission example_marshal ''2026-01-27T18:03:12Z'' 1500000
          (example_client (granting_stub [''secretmanager.secrets.get'']) AuthModeStrict
             (Some example_writer))
          [] ''user:alice@example.com'' ''projects/p/secrets/s'' ''secretmanager.secrets.get'')
     = (True, None)"
    by simp
  from CheckPermission_remote_success [OF call,
      where P = "[]" and jm = example_marshal
        and now = "''2026-01-27T18:03:12Z''" and d = 1500000]
  have 2: "fst (CheckPermission example_marshal ''2026-01-27T18:03:12Z'' 1500000
          (example_client (granting_stub []) AuthModePermissive (Some example_writer))
          [] ''user:alice@example.com'' ''projects/p/secrets/s'' ''secretmanager.secrets.get'')
     = (False, None)"
    by simp
  from 1 2 show ?thesis by blast
qed

text \<open>
  Claim C5. Whatever the mode and the outcome of the remote call, \<open>CheckPermission\<close>
  returns \<open>(true, nil)\<close>, \<open>(false, nil)\<close> or \<open>(false, e)\<close> with \<open>e\<close> the very error of the
  remote call; it never returns \<open>true\<close> with an error.
\<close>

theorem CheckPermission_result_shapes:
  "(fst (CheckPermission jm now d c ctx princ resource permission) = (True, None)
    \<or> fst (CheckPermission jm now d c ctx princ resource permission) = (False, None)
    \<or> (\<exists>e. client c (InjectPrincipalToContext ctx princ)
               \<lparr>req_Resource = resource, req_Permissions = [permission]\<rparr> = Inl e
            \<and> fst (CheckPermission jm now d c ctx princ resource permission) = (False, Some e)))
   \<and> \<not> (fst (fst (CheckPermission jm now d c ctx princ resource permission))
          \<and> snd (fst (CheckPermission jm now d c ctx princ resource permission)) \<noteq> None)"
proof (cases "client c (InjectPrincipalToContext ctx princ)
               \<lparr>req_Resource = resource, req_Permissions = [permission]\<rparr>")
  case (Inl e)
  from CheckPermission_failure [OF Inl, of jm now d] Inl show ?thesis
    by (cases "IsConnectivityError (Some e) \<and> mode c = AuthModePermissive") simp_all
next
  case (Inr P)
  from CheckPermission_success [OF Inr, of jm now d] show ?thesis
    by (cases "length P = 1") simp_all
qed

theorem CheckPermission_result_shapes_witness:
  "fst (CheckPermission example_marshal ''2026-01-27T18:03:12Z'' 1500000
          (example_client (failing_stub (StatusError PermissionDenied ''denied'')) AuthModePermissive
             (Some example_writer))
          [] ''user:alice@example.com'' ''projects/p/secrets/s'' ''secretmanager.secrets.get'')
     = (False, Some (StatusError PermissionDenied ''denied''))"
proof -
  have call: "client (example_client (failing_stub e) m w) (InjectPrincipalToContext ctx p)
      \<lparr>req_Resource = r, req_Permissions = [q]\<rparr> = Inl e" for e m w ctx p r q
    by (simp add: example_client_def failing_stub_def)
  have no: "\<not> IsConnectivityError (Some (StatusError PermissionDenied ''denied''))"
    by (simp add: IsConnectivityError_def status_Code_def PermissionDenied_def Unavailable_def
        DeadlineExceeded_def Canceled_def)
  have r: "fst (CheckPermission example_marshal ''2026-01-27T18:03:12Z'' 1500000
          (example_client (failing_stub (StatusError PermissionDenied ''denied'')) AuthModePermissive
             (Some example_writer))
          [] ''user:alice@example.com'' ''projects/p/secrets/s'' ''secretmanager.secrets.get'')
      \<noteq> (True, None)"
    using CheckPermission_failure [OF call, where jm = example_marshal
        and now = "''2026-01-27T18:03:12Z''" and d = 1500000
        and e = "StatusError PermissionDenied ''denied''"] no
    by simp
  have r': "fst (CheckPermission example_marshal ''2026-01-27T18:03:12Z'' 1500000
          (example_client (failing_stub (StatusError PermissionDenied ''denied'')) AuthModePermissive
             (Some example_writer))
          [] ''user:alice@example.com'' ''projects/p/secrets/s'' ''secretmanager.secrets.get'')
      \<noteq> (False, None)"
    using CheckPermission_failure [OF call, where jm = example_marshal
        and now = "''2026-01-27T18:03:12Z''" and d = 1500000
        and e = "StatusError PermissionDenied ''denied''"] no
    by simp
  from CheckPermission_result_shapes [of example_marshal "''2026-01-27T18:03:12Z''" 1500000
      "example_client (failing_stub (StatusError PermissionDenied ''denied'')) AuthModePermissive
         (Some example_writer)"
      "[]" "''user:alice@example.com''" "''projects/p/secrets/s''" "''secretmanager.secrets.get''"]
    r r' call
  show ?thesis by auto
qed



text \<open>
  Claim C4. The pair returned by \<open>CheckPermission\<close> does not depend on the trace writer:
  two runs in the same mode, with the same arguments and the same outcome of the remote
  call return the same pair, whatever their trace writers (absent, closed, failing or
  working), JSON encoders, time stamps and durations are. No failure of the trace
  emission reaches the caller.
\<close>

theorem CheckPermission_independent_of_trace:
  assumes "mode c1 = mode c2"
    and "client c1 (InjectPrincipalToContext ctx princ)
           \<lparr>req_Resource = resource, req_Permissions = [permission]\<rparr>
         = client c2 (InjectPrincipalToContext ctx princ)
           \<lparr>req_Resource = resource, req_Permissions = [permission]\<rparr>"
  shows "fst (CheckPermission jm1 now1 d1 c1 ctx princ resource permission)
       = fst (CheckPermission jm2 now2 d2 c2 ctx princ resource permission)"
proof (cases "client c1 (InjectPrincipalToContext ctx princ)
               \<lparr>req_Resource = resource, req_Permissions = [permission]\<rparr>")
  case (Inl e)
  with assms(2) have 2: "client c2 (InjectPrincipalToContext ctx princ)
      \<lparr>req_Resource = resource, req_Permissions = [permission]\<rparr> = Inl e"
    by simp
  from CheckPermission_failure [OF Inl, of jm1 now1 d1]
    CheckPermission_failure [OF 2, of jm2 now2 d2] assms(1)
  show ?thesis by simp
next
  case (Inr P)
  with assms(2) have 2: "client c2 (InjectPrincipalToContext ctx princ)
      \<lparr>req_Resource = resource, req_Permissions = [permission]\<rparr> = Inr P"
    by simp
  from CheckPermission_success [OF Inr, of jm1 now1 d1]
    CheckPermission_success [OF 2, of jm2 now2 d2]
  show ?thesis by simp
qed

theorem CheckPermission_independent_of_trace_witness:
  "fst (Emit example_marshal (Some (example_writer\<lparr>closed := True\<rparr>))
          (authz_error_event
             (example_client (failing_stub (StatusError Unavailable ''down'')) AuthModePermissive
                (Some (example_writer\<lparr>closed := True\<rparr>)))
             ''2026-01-27T18:03:12Z'' (StatusError Unavailable ''down'')))
     = Some (PlainError ''writer is closed'')
   \<and> fst (CheckPermission example_marshal ''2026-01-27T18:03:12Z'' 1500000
          (example_client (failing_stub (StatusError Unavailable ''down'')) AuthModePermissive
             (Some (example_writer\<lparr>closed := True\<rparr>)))
          [] ''user:alice@example.com'' ''projects/p/secrets/s'' ''secretmanager.secrets.get'')
     = fst (CheckPermission example_marshal ''2026-01-27T18:03:13Z'' 1700000
          (example_client (failing_stub (StatusError Unavailable ''down'')) AuthModePermissive
             (Some example_writer))
          [] ''user:alice@example.com'' ''projects/p/secrets/s'' ''secretmanager.secrets.get'')
   \<and> fst (CheckPermission example_marshal ''2026-01-27T18:03:12Z'' 1500000
          (example_client (failing_stub (StatusError Unavailable ''down'')) AuthModePermissive
             None)
          [] ''user:alice@example.com'' ''projects/p/secrets/s'' ''secretmanager.secrets.get'')
     = fst (CheckPermission example_marshal ''2026-01-27T18:03:13Z'' 1700000
          (example_client (failing_stub (StatusError Unavailable ''down'')) AuthModePermissive
             (Some example_writer))
          [] ''user:alice@example.com'' ''projects/p/secrets/s'' ''secretmanager.secrets.get'')"
proof -
  have 1: "fst (Emit example_marshal (Some (example_writer\<lparr>closed := True\<rparr>)) ev)
      = Some (PlainError ''writer is closed'')" for ev
    by (simp add: Emit_def)
  have m: "mode (example_client s x w1) = mode (example_client s x w2)" for s x w1 w2
    by (simp add: example_client_def)
  have r: "client (example_client s x w1) y z = client (example_client s x w2) y z"
    for s x w1 w2 y z
    by (simp add: example_client_def)
  from 1 CheckPermission_independent_of_trace [OF m r] show ?thesis by blast
qed

section \<open>Closing\<close>




section \<open>The validator\<close>

lemma supported_NewValidator: "supported NewValidator ver \<longleftrightarrow> ver = ''1.0''"
  by (simp add: supported_def NewValidator_def SchemaV1_0_def)

lemma TrimSpace_ALLOW: "TrimSpace ''ALLOW'' = ''ALLOW''"
  by code_simp

lemma TrimSpace_DENY: "TrimSpace ''DENY'' = ''DENY''"
  by code_simp

text \<open>
  Claim C7, as stated, fails: an \<open>authz_error\<close> event whose error kind is one blank is
  rejected, although its kind and its message are not empty.
\<close>

theorem ValidateEvent_blank_kind_counterexample:
  "ValidateEvent NewValidator
     \<lparr>SchemaVersion = ''1.0'', EventType = ''authz_error'',
      Timestamp = ''2026-01-27T18:03:12.490Z'', Trace = None, Actor = None, Target = None,
      Action = None, Decision = None, Policy = None, Environment = None,
      Error = Some \<lparr>Kind = '' '', Message = ''connection refused'', Retryable = True\<rparr>\<rparr>
     = Some (PlainError ''missing error.kind'')
   \<and> '' '' \<noteq> [] \<and> ''connection refused'' \<noteq> []"
proof -
  have "TrimSpace '' '' = []" by code_simp
  then show ?thesis
    by (simp add: ValidateEvent_def supported_NewValidator EventTypeAuthzCheck_def
        EventTypeAuthzError_def)
qed

text \<open>
  Claim C7, amended. \<open>ValidateEvent\<close> of the validator of \<open>NewValidator\<close> returns nil
  exactly when the event has the schema version "1.0", a non-empty time stamp and the
  event type "authz_check" or "authz_error"; for "authz_check" an actor, a target and an
  action whose principal, resource and permission are not empty after trimming white
  space, and a decision whose outcome is ALLOW or DENY; for "authz_error" an error whose
  kind and message are not empty after trimming white space.
\<close>

theorem ValidateEvent_accepts_iff:
  "ValidateEvent NewValidator ev = None \<longleftrightarrow>
     SchemaVersion ev = ''1.0'' \<and> Timestamp ev \<noteq> []
     \<and> (EventType ev = ''authz_check''
           \<and> (\<exists>a. Actor ev = Some a \<and> TrimSpace (Principal a) \<noteq> [])
           \<and> (\<exists>t. Target ev = Some t \<and> TrimSpace (Resource t) \<noteq> [])
           \<and> (\<exists>a. Action ev = Some a \<and> TrimSpace (Permission a) \<noteq> [])
           \<and> (\<exists>d. Decision ev = Some d \<and> (Outcome d = ''ALLOW'' \<or> Outcome d = ''DENY''))
         \<or> EventType ev = ''authz_error''
           \<and> (\<exists>e. Error ev = Some e \<and> TrimSpace (Kind e) \<noteq> [] \<and> TrimSpace (Message e) \<noteq> []))"
  by (auto simp: ValidateEvent_def supported_NewValidator EventTypeAuthzCheck_def
      EventTypeAuthzError_def OutcomeAllow_def OutcomeDeny_def TrimSpace_ALLOW TrimSpace_DENY
      split: option.splits if_splits)

theorem ValidateEvent_accepts_iff_witness:
  "ValidateEvent NewValidator
     \<lparr>SchemaVersion = ''1.0'', EventType = ''authz_check'',
      Timestamp = ''2026-01-27T18:03:12.483Z'', Trace = None,
      Actor = Some \<lparr>Principal = ''user:test@example.com'', PrincipalType = [], Groups = [],
                    Source = None\<rparr>,
      Target = Some \<lparr>Resource = ''projects/test/secrets/foo'', ResourceType = [], Project = [],
                     Location = None, Service = []\<rparr>,
      Action = Some \<lparr>Permission = ''secretmanager.secrets.get'', Method = [], API = None\<rparr>,
      Decision = Some \<lparr>Outcome = ''ALLOW'', Reason = [], EvaluatedBy = [], LatencyMS = 0\<rparr>,
      Policy = None, Environment = None, Error = None\<rparr> = None
   \<and> ValidateEvent NewValidator
     \<lparr>SchemaVersion = ''1.0'', EventType = ''authz_error'',
      Timestamp = ''2026-01-27T18:03:12.490Z'', Trace = None, Actor = None, Target = None,
      Action = None, Decision = None, Policy = None, Environment = None,
      Error = Some \<lparr>Kind = ''iam_unreachable'', Message = ''connection refused'',
                    Retryable = True\<rparr>\<rparr> = None
   \<and> ValidateEvent NewValidator
     \<lparr>SchemaVersion = ''1.0'', EventType = ''authz_check'',
      Timestamp = ''2026-01-27T18:03:12.483Z'', Trace = None,
      Actor = Some \<lparr>Principal = ''user:test@example.com'', PrincipalType = [], Groups = [],
                    Source = None\<rparr>,
      Target = Some \<lparr>Resource = ''projects/test/secrets/foo'', ResourceType = [], Project = [],
                     Location = None, Service = []\<rparr>,
      Action = Some \<lparr>Permission = ''secretmanager.secrets.get'', Method = [], API = None\<rparr>,
      Decision = Some \<lparr>Outcome = ''INVALID'', Reason = [], EvaluatedBy = [], LatencyMS = 0\<rparr>,
      Policy = None, Environment = None, Error = None\<rparr> \<noteq> None"
proof -
  have t: "TrimSpace ''user:test@example.com'' \<noteq> []"
    "TrimSpace ''projects/test/secrets/foo'' \<noteq> []"
    "TrimSpace ''secretmanager.secrets.get'' \<noteq> []"
    "TrimSpace ''iam_unreachable'' \<noteq> []"
    "TrimSpace ''connection refused'' \<noteq> []"
    by code_simp+
  show ?thesis
    unfolding ValidateEvent_accepts_iff using t by simp
qed

section \<open>Writing a trace and reading it back\<close>















end
